theory Spec2Isabelle
  imports Main "HOL-Library.AList"
begin

section \<open>Python values\<close>

text \<open>
  The record classes of \<^verbatim>\<open>padmiss/api.py\<close>. \<^verbatim>\<open>Player\<close>, \<^verbatim>\<open>ScoreBreakdown\<close>,
  \<^verbatim>\<open>Score\<close> and \<^verbatim>\<open>Song\<close> derive from \<^verbatim>\<open>FlattenedBase\<close>; the other four derive
  from \<^verbatim>\<open>Base\<close> directly.
\<close>

datatype cls = Player | ScoreBreakdown | Score | Song | TimingWindows | ChartUpload
  | InputEvent | NoteScore

text \<open>
  The values the code handles: \<^verbatim>\<open>None\<close>, booleans, integers, strings, lists,
  dictionaries with string keys (keyword arguments, decoded JSON objects, the
  \<^verbatim>\<open>__dict__\<close> of an instance), class objects and instances of the record classes.
  A dictionary is an association list in insertion order; a dictionary of the program
  never holds a key twice. Floating-point numbers are left out: no branch of the code
  tells them from integers.
\<close>

datatype pyval =
    PNone
  | PBool bool
  | PInt int
  | PStr string
  | PList "pyval list"
  | PDict "(string \<times> pyval) list"
  | PClass cls
  | PInst cls "(string \<times> pyval) list"

type_synonym pydict = "(string \<times> pyval) list"

text \<open>
  Exceptions are values. \<^verbatim>\<open>TournamentApiError\<close> carries its argument; the others are
  the interpreter's own and the JSON decoder's.
\<close>

datatype error = TournamentApiError pyval | TypeError | KeyError | AttributeError
  | IndexError | JSONDecodeError

definition and_then :: "error + 'a \<Rightarrow> ('a \<Rightarrow> error + 'b) \<Rightarrow> error + 'b" where
  "and_then m f = (case m of Inl e \<Rightarrow> Inl e | Inr x \<Rightarrow> f x)"

lemma and_then_simps [simp]:
  "and_then (Inl e) f = Inl e" "and_then (Inr x) f = f x"
  by (simp_all add: and_then_def)

lemma and_then_Inr_iff: "and_then m f = Inr y \<longleftrightarrow> (\<exists>x. m = Inr x \<and> f x = Inr y)"
  by (cases m) simp_all

text \<open>Truth value of an object, as \<^verbatim>\<open>if c\<close> and \<^verbatim>\<open>not x\<close> test it.\<close>

fun truthy :: "pyval \<Rightarrow> bool" where
  "truthy PNone = False"
| "truthy (PBool b) = b"
| "truthy (PInt n) = (n \<noteq> 0)"
| "truthy (PStr s) = (s \<noteq> [])"
| "truthy (PList xs) = (xs \<noteq> [])"
| "truthy (PDict d) = (d \<noteq> [])"
| "truthy (PClass c) = True"
| "truthy (PInst c d) = True"

text \<open>\<^verbatim>\<open>isinstance(v, dict)\<close>, \<^verbatim>\<open>isinstance(v, FlattenedBase)\<close>, \<^verbatim>\<open>isinstance(v, Base)\<close>.\<close>

fun is_dict :: "pyval \<Rightarrow> bool" where
  "is_dict (PDict d) = True"
| "is_dict _ = False"

fun flattened :: "cls \<Rightarrow> bool" where
  "flattened Player = True"
| "flattened ScoreBreakdown = True"
| "flattened Score = True"
| "flattened Song = True"
| "flattened _ = False"

fun is_FlattenedBase :: "pyval \<Rightarrow> bool" where
  "is_FlattenedBase (PInst c d) = flattened c"
| "is_FlattenedBase _ = False"


text \<open>
  \<^verbatim>\<open>d.update(e)\<close> and a dictionary built from a sequence of items: a key already there
  keeps its place and takes the new value, a new key goes to the end.
\<close>

definition dict_update :: "pydict \<Rightarrow> pydict \<Rightarrow> pydict" where
  "dict_update d e = fold (\<lambda>(k, v). AList.update k v) e d"

definition dict_of_items :: "pydict \<Rightarrow> pydict" where
  "dict_of_items xs = dict_update [] xs"

text \<open>
  Attribute access \<^verbatim>\<open>v.name\<close> for the field names the code reads. An instance holds
  its fields in its \<^verbatim>\<open>__dict__\<close>; no class object and no built-in value has an
  attribute of one of those names.
\<close>

fun getattr :: "pyval \<Rightarrow> string \<Rightarrow> error + pyval" where
  "getattr (PInst c d) k = (case map_of d k of None \<Rightarrow> Inl AttributeError | Some v \<Rightarrow> Inr v)"
| "getattr _ k = Inl AttributeError"

text \<open>
  \<^verbatim>\<open>v.__dict__\<close>. A class object has one too (its namespace, which the interpreter
  builds): it is the parameter \<open>ns\<close>. Built-in values have none.
\<close>

fun get_dict :: "(cls \<Rightarrow> pydict) \<Rightarrow> pyval \<Rightarrow> error + pydict" where
  "get_dict ns (PInst c d) = Inr d"
| "get_dict ns (PClass c) = Inr (ns c)"
| "get_dict ns _ = Inl AttributeError"

text \<open>\<^verbatim>\<open>k in v\<close> for a string \<open>k\<close>: a key of a dictionary, an element of a list, a
  substring of a string; other values are not iterable.\<close>

fun starts_with :: "string \<Rightarrow> string \<Rightarrow> bool" where
  "starts_with [] s = True"
| "starts_with (c # p) [] = False"
| "starts_with (c # p) (x # s) = (c = x \<and> starts_with p s)"

fun is_substring :: "string \<Rightarrow> string \<Rightarrow> bool" where
  "is_substring p [] = (p = [])"
| "is_substring p (x # s) = (starts_with p (x # s) \<or> is_substring p s)"

fun contains :: "string \<Rightarrow> pyval \<Rightarrow> error + bool" where
  "contains k (PDict d) = Inr (map_of d k \<noteq> None)"
| "contains k (PList xs) = Inr (PStr k \<in> set xs)"
| "contains k (PStr s) = Inr (is_substring k s)"
| "contains k _ = Inl TypeError"

text \<open>\<^verbatim>\<open>v[k]\<close> for a string \<open>k\<close>, \<^verbatim>\<open>v[0]\<close>, \<^verbatim>\<open>len(v)\<close>, iteration over \<open>v\<close>, and
  \<^verbatim>\<open>v[k] = x\<close>.\<close>

fun subscript :: "pyval \<Rightarrow> string \<Rightarrow> error + pyval" where
  "subscript (PDict d) k = (case map_of d k of None \<Rightarrow> Inl KeyError | Some v \<Rightarrow> Inr v)"
| "subscript _ k = Inl TypeError"


fun py_len :: "pyval \<Rightarrow> error + nat" where
  "py_len (PList xs) = Inr (length xs)"
| "py_len (PDict d) = Inr (length d)"
| "py_len (PStr s) = Inr (length s)"
| "py_len _ = Inl TypeError"

fun py_iter :: "pyval \<Rightarrow> error + pyval list" where
  "py_iter (PList xs) = Inr xs"
| "py_iter (PDict d) = Inr (map (\<lambda>(k, v). PStr k) d)"
| "py_iter (PStr s) = Inr (map (\<lambda>c. PStr [c]) s)"
| "py_iter _ = Inl TypeError"

fun set_item :: "pyval \<Rightarrow> string \<Rightarrow> pyval \<Rightarrow> error + pyval" where
  "set_item (PDict d) k x = Inr (PDict (AList.update k x d))"
| "set_item _ k x = Inl TypeError"

text \<open>
  The state of a \<^verbatim>\<open>TournamentApi\<close> that the modelled methods read: \<^verbatim>\<open>url\<close>, and
  \<^verbatim>\<open>key\<close>, which is set only when the client was made from a configuration object
  rather than a bare URL.
\<close>

record client =
  url :: string
  key :: "pyval option"

section \<open>The record model: \<^verbatim>\<open>Base.__init__\<close>\<close>

definition missing_msg :: "string \<Rightarrow> pyval" where
  "missing_msg k = PStr (''Required parameter '' @ [CHR 0x27] @ k @ [CHR 0x27] @ '' missing'')"

lemma size_map_of: "map_of d k = Some v \<Longrightarrow> size v < size (PDict d)"
  by (induction d) (auto split: if_splits)

text \<open>
  \<open>construct F n kwargs\<close> is the call \<^verbatim>\<open>n(**kwargs)\<close>, where \<open>F n\<close> is the
  \<^verbatim>\<open>__fields__\<close> of class \<open>n\<close> in declaration order. The method is
  \<^verbatim>\<open>__init__(self, **kwargs)\<close>, so a mapping that holds the key \<^verbatim>\<open>self\<close> gives the
  parameter \<^verbatim>\<open>self\<close> a second value and the call raises \<^verbatim>\<open>TypeError\<close> before the body
  runs. \<open>set_fields\<close> is the loop of \<^verbatim>\<open>Base.__init__\<close> over the remaining fields, \<open>d\<close> the
  \<^verbatim>\<open>__dict__\<close> of the new instance so far. The call \<^verbatim>\<open>c(**val)\<close> constructs a record
  when \<open>c\<close> is a class and raises \<^verbatim>\<open>TypeError\<close> when \<open>c\<close> is any other value (it is not
  callable).
\<close>

function construct :: "(cls \<Rightarrow> pydict) \<Rightarrow> cls \<Rightarrow> pydict \<Rightarrow> error + pyval"
  and set_fields :: "(cls \<Rightarrow> pydict) \<Rightarrow> pydict \<Rightarrow> pydict \<Rightarrow> pydict \<Rightarrow> error + pydict"
where
  "construct F n kwargs =
     (if map_of kwargs ''self'' \<noteq> None then Inl TypeError
      else (case set_fields F (F n) kwargs [] of
              Inl e \<Rightarrow> Inl e
            | Inr d \<Rightarrow> Inr (PInst n d)))"
| "set_fields F [] kwargs d = Inr d"
| "set_fields F ((k, c) # fs) kwargs d =
     (case (case map_of kwargs k of
              None \<Rightarrow> if c = PNone then Inl (TournamentApiError (missing_msg k)) else Inr c
            | Some v \<Rightarrow> Inr v) of
        Inl e \<Rightarrow> Inl e
      | Inr val \<Rightarrow>
          (case (if truthy c
                 then (case val of
                         PDict m \<Rightarrow>
                           (case c of PClass n \<Rightarrow> construct F n m | _ \<Rightarrow> Inl TypeError)
                       | _ \<Rightarrow> Inr val)
                 else Inr val) of
             Inl e \<Rightarrow> Inl e
           | Inr val' \<Rightarrow> set_fields F fs kwargs (AList.update k val' d)))"
  by pat_completeness auto
termination
  apply (relation "measures
     [\<lambda>x. case x of Inl (F, n, kw) \<Rightarrow> size (PDict kw) | Inr (F, fs, kw, d) \<Rightarrow> size (PDict kw),
      \<lambda>x. case x of Inl (F, n, kw) \<Rightarrow> Suc (length (F n)) | Inr (F, fs, kw, d) \<Rightarrow> length fs]")
     apply (auto split: option.splits if_splits dest: size_map_of)
  done

declare construct.simps [simp del]


text \<open>The \<^verbatim>\<open>__fields__\<close> of the eight record classes.\<close>

fun fields :: "cls \<Rightarrow> pydict" where
  "fields Player =
     [(''nickname'', PNone), (''shortNickname'', PStr ''''), (''avatarIconUrl'', PStr ''''),
      (''rfidUid'', PStr ''''), (''_id'', PNone), (''metaData'', PStr ''{}''),
      (''mountType'', PBool False)]"
| "fields ScoreBreakdown =
     [(''fantastics'', PNone), (''excellents'', PNone), (''greats'', PNone),
      (''decents'', PNone), (''wayoffs'', PNone), (''misses'', PNone), (''holds'', PNone),
      (''holdsTotal'', PNone), (''minesHit'', PNone), (''minesAvoided'', PNone),
      (''minesTotal'', PNone), (''rolls'', PNone), (''rollsTotal'', PNone),
      (''jumps'', PNone), (''jumpsTotal'', PNone), (''hands'', PNone),
      (''handsTotal'', PNone)]"
| "fields Score =
     [(''scoreBreakdown'', PClass ScoreBreakdown), (''scoreValue'', PNone),
      (''passed'', PNone), (''secondsSurvived'', PNone)]"
| "fields Song =
     [(''title'', PNone), (''titleTransliteration'', PNone), (''subTitle'', PNone),
      (''subTitleTransliteration'', PNone), (''artist'', PNone),
      (''artistTransliteration'', PNone), (''durationSeconds'', PNone)]"
| "fields TimingWindows =
     [(''fantasticTimingWindow'', PNone), (''excellentTimingWindow'', PNone),
      (''greatTimingWindow'', PNone), (''decentTimingWindow'', PNone),
      (''wayoffTimingWindow'', PNone), (''mineTimingWindow'', PNone),
      (''holdTimingWindow'', PNone), (''rollTimingWindow'', PNone)]"
| "fields ChartUpload =
     [(''hash'', PNone), (''meter'', PNone), (''playMode'', PNone), (''stepData'', PNone),
      (''stepArtist'', PNone), (''song'', PClass Song), (''score'', PClass Score),
      (''group'', PNone), (''cabSide'', PNone), (''speedMod'', PNone),
      (''musicRate'', PNone), (''modsTurn'', PNone), (''modsTransform'', PNone),
      (''modsOther'', PNone), (''noteSkin'', PNone), (''perspective'', PNone),
      (''timingWindows'', PClass TimingWindows), (''inputEvents'', PList []),
      (''noteScoresWithBeats'', PList [])]"
| "fields InputEvent =
     [(''beat'', PNone), (''column'', PNone), (''released'', PNone)]"
| "fields NoteScore =
     [(''beat'', PNone), (''column'', PNone), (''holdNoteScore'', PNone),
      (''tapNoteScore'', PNone), (''offset'', PNone)]"

text \<open>
  \<^verbatim>\<open>Player.getMeta\<close>. \<^verbatim>\<open>json.loads\<close> accepts text only; what it makes of a text is
  the parameter \<open>decode\<close> (the decoder belongs to the standard library).
\<close>

definition json_loads :: "(string \<Rightarrow> error + pyval) \<Rightarrow> pyval \<Rightarrow> error + pyval" where
  "json_loads decode v = (case v of PStr s \<Rightarrow> decode s | _ \<Rightarrow> Inl TypeError)"

definition getMeta :: "(string \<Rightarrow> error + pyval) \<Rightarrow> pyval \<Rightarrow> string \<Rightarrow> error + pyval" where
  "getMeta decode self field =
     and_then (getattr self ''metaData'') (\<lambda>metaData.
       if metaData = PNone then Inr PNone
       else and_then (json_loads decode metaData) (\<lambda>data.
         and_then (contains field data) (\<lambda>found.
           if found then subscript data field else Inr PNone)))"

section \<open>The API client\<close>

text \<open>
  A request to the query endpoint: the \<^verbatim>\<open>Players\<close> query with its filter, the
  \<^verbatim>\<open>Scores\<close> page query with its offset and the player of its filter, the
  \<^verbatim>\<open>Stepchart\<close> query with its id. The endpoint is a parameter \<open>graph\<close>, which stands
  for \<^verbatim>\<open>json.loads(self.graph.execute(req))\<close>: the decoded answer, or the exception
  raised on the way (serialising the filter, the transport, the decoder).
\<close>

datatype query = PlayersQuery pydict | ScoresQuery nat pyval | StepchartQuery string



text \<open>
  \<^verbatim>\<open>TournamentApi.get_score_history\<close>, first the body of the \<^verbatim>\<open>while True\<close> loop after
  the request: from the decoded answer, the offset and the scores so far to the new
  \<open>left\<close>, offset and scores.
\<close>

definition score_docs :: "pyval \<Rightarrow> error + pyval" where
  "score_docs scoreResult =
     and_then (subscript scoreResult ''data'') (\<lambda>x.
       and_then (subscript x ''Scores'') (\<lambda>y. subscript y ''docs''))"

definition page_step :: "pyval \<Rightarrow> nat \<Rightarrow> pyval list \<Rightarrow> error + (nat \<times> nat \<times> pyval list)" where
  "page_step scoreResult offset scores =
     and_then (contains ''data'' scoreResult) (\<lambda>has_data.
       and_then (if \<not> has_data then Inr True
                 else and_then (score_docs scoreResult) (\<lambda>docs. Inr (\<not> truthy docs))) (\<lambda>empty.
         if empty then Inr (0, offset, scores)
         else and_then (score_docs scoreResult) (\<lambda>docs.
           and_then (py_len docs) (\<lambda>left.
             and_then (py_iter docs) (\<lambda>items.
               and_then (and_then (subscript scoreResult ''data'') (\<lambda>x.
                           and_then (subscript x ''Scores'') (\<lambda>y. subscript y ''totalDocs'')))
                 (\<lambda>totalDocs. Inr (left, offset + 10, scores @ items)))))))"

lemma page_step_offset:
  "page_step scoreResult offset scores = Inr (left, offset', scores') \<Longrightarrow> left \<noteq> 0 \<Longrightarrow>
   offset' = offset + 10"
  by (auto simp: page_step_def and_then_Inr_iff split: if_splits)

text \<open>
  The loop. \<open>fetched\<close> lists the offsets requested so far; the result is the list
  \<^verbatim>\<open>scores\<close> when the loop ends, with the offsets requested.
\<close>

function score_pages ::
  "(query \<Rightarrow> error + pyval) \<Rightarrow> pyval \<Rightarrow> nat \<Rightarrow> pyval list \<Rightarrow> nat list \<Rightarrow> error + (pyval list \<times> nat list)" where
  "score_pages graph playerId offset scores fetched =
     (case graph (ScoresQuery offset playerId) of
        Inl e \<Rightarrow> Inl e
      | Inr scoreResult \<Rightarrow>
          (case page_step scoreResult offset scores of
             Inl e \<Rightarrow> Inl e
           | Inr (left, offset', scores') \<Rightarrow>
               if left = 0 \<or> offset' > 100 then Inr (scores', fetched @ [offset])
               else score_pages graph playerId offset' scores' (fetched @ [offset])))"
  by pat_completeness auto
termination
  apply (relation "measure (\<lambda>(graph, playerId, offset, scores, fetched). 101 - offset)")
   apply (auto dest: page_step_offset)
  done

declare score_pages.simps [simp del]

text \<open>
  The second pass. \<^verbatim>\<open>songs\<close> is keyed by whatever \<^verbatim>\<open>score['stepChart']['_id']\<close> is,
  so its keys are values; a list or a dictionary cannot be a key.
\<close>

definition chart_id :: "pyval \<Rightarrow> error + pyval" where
  "chart_id score = and_then (subscript score ''stepChart'') (\<lambda>x. subscript x ''_id'')"

fun hashable :: "pyval \<Rightarrow> bool" where
  "hashable (PList xs) = False"
| "hashable (PDict d) = False"
| "hashable _ = True"

fun song_keys :: "pyval list \<Rightarrow> (pyval \<times> pyval) list \<Rightarrow> error + (pyval \<times> pyval) list" where
  "song_keys [] songs = Inr songs"
| "song_keys (score # rest) songs =
     (case chart_id score of
        Inl e \<Rightarrow> Inl e
      | Inr i \<Rightarrow> if hashable i then song_keys rest (AList.update i PNone songs) else Inl TypeError)"

fun populate ::
  "(query \<Rightarrow> error + pyval) \<Rightarrow> pyval list \<Rightarrow> pyval list \<Rightarrow> (pyval \<times> pyval) list \<Rightarrow>
   error + (pyval \<times> pyval) list" where
  "populate graph scores [] songs = Inr songs"
| "populate graph scores (i # ids) songs =
     (case i of
        PStr sid \<Rightarrow>
          (case and_then (graph (StepchartQuery sid)) (\<lambda>res.
                  and_then (and_then (subscript res ''data'') (\<lambda>x. subscript x ''Stepchart''))
                    (\<lambda>chart. set_item chart ''scores''
                       (PList (filter (\<lambda>s. chart_id s = Inr (PStr sid)) scores)))) of
             Inl e \<Rightarrow> Inl e
           | Inr chart \<Rightarrow> populate graph scores ids (AList.update i chart songs))
      | _ \<Rightarrow> Inl TypeError)"

definition get_score_history ::
  "(query \<Rightarrow> error + pyval) \<Rightarrow> pyval \<Rightarrow> error + (pyval \<times> pyval) list" where
  "get_score_history graph playerId =
     and_then (score_pages graph playerId 0 [] []) (\<lambda>(scores, fetched).
       and_then (song_keys scores []) (\<lambda>songs.
         populate graph scores (map fst songs) songs))"

text \<open>\<^verbatim>\<open>TournamentApi.post_score\<close>.\<close>

text \<open>The dictionary literal of lines 372 to 379.\<close>

definition score_head :: "client \<Rightarrow> pyval \<Rightarrow> pyval \<Rightarrow> error + pydict" where
  "score_head self player upload =
     (case key self of
        None \<Rightarrow> Inl AttributeError
      | Some apiKey \<Rightarrow>
          and_then (getattr player ''_id'') (\<lambda>playerId.
          and_then (and_then (getattr upload ''score'') (\<lambda>s. getattr s ''scoreValue'')) (\<lambda>scoreValue.
          and_then (and_then (getattr upload ''score'') (\<lambda>s. getattr s ''passed'')) (\<lambda>passed.
          and_then (and_then (getattr upload ''score'') (\<lambda>s. getattr s ''secondsSurvived''))
            (\<lambda>secondsSurvived.
          and_then (getattr upload ''group'') (\<lambda>group.
            Inr [(''apiKey'', apiKey), (''playerId'', playerId), (''scoreValue'', scoreValue),
                 (''passed'', passed), (''secondsSurvived'', secondsSurvived),
                 (''group'', group)]))))))"

text \<open>\<^verbatim>\<open>list(map(lambda e: e.__dict__, xs))\<close>.\<close>

fun dicts_of :: "(cls \<Rightarrow> pydict) \<Rightarrow> pyval list \<Rightarrow> error + pyval list" where
  "dicts_of ns [] = Inr []"
| "dicts_of ns (e # es) =
     (case get_dict ns e of
        Inl err \<Rightarrow> Inl err
      | Inr d \<Rightarrow> (case dicts_of ns es of Inl err \<Rightarrow> Inl err | Inr ds \<Rightarrow> Inr (PDict d # ds)))"

text \<open>The dictionary \<^verbatim>\<open>data\<close> when line 385 is done.\<close>

definition score_data :: "(cls \<Rightarrow> pydict) \<Rightarrow> client \<Rightarrow> pyval \<Rightarrow> pyval \<Rightarrow> error + pydict" where
  "score_data ns self player upload =
     and_then (score_head self player upload) (\<lambda>data0.
     and_then (and_then (and_then (getattr upload ''score'') (\<lambda>s. getattr s ''scoreBreakdown''))
                 (get_dict ns)) (\<lambda>breakdown.
     and_then (and_then (getattr upload ''song'') (get_dict ns)) (\<lambda>song.
     and_then (get_dict ns upload) (\<lambda>own.
     and_then (and_then (and_then (getattr upload ''inputEvents'') py_iter) (dicts_of ns))
       (\<lambda>inputEvents.
     and_then (and_then (and_then (getattr upload ''noteScoresWithBeats'') py_iter) (dicts_of ns))
       (\<lambda>noteScores.
       Inr (AList.update ''noteScoresWithBeats'' (PList noteScores)
             (AList.update ''inputEvents'' (PList inputEvents)
               (dict_update
                 (dict_update (dict_update data0 breakdown) song)
                 (dict_of_items (filter (\<lambda>(k, v). \<not> is_FlattenedBase v) own)))))))))))"

text \<open>\<^verbatim>\<open>dumpable\<close>, and the dictionary handed to \<^verbatim>\<open>requests.post\<close> as \<^verbatim>\<open>json\<close>.\<close>

fun dumpable :: "pyval \<Rightarrow> pyval" where
  "dumpable (PInst c d) = PDict d"
| "dumpable v = v"

definition score_json :: "(cls \<Rightarrow> pydict) \<Rightarrow> client \<Rightarrow> pyval \<Rightarrow> pyval \<Rightarrow> error + pydict" where
  "score_json ns self player upload =
     and_then (score_data ns self player upload) (\<lambda>data.
       Inr (dict_of_items (map (\<lambda>(k, v). (k, dumpable v)) (filter (\<lambda>(k, v). v \<noteq> PNone) data))))"

text \<open>
  The whole call: \<open>post\<close> stands for \<^verbatim>\<open>requests.post(url, json=...).json()\<close>. In Python
  \<^verbatim>\<open>1 == True\<close>, so a \<^verbatim>\<open>success\<close> of 1 passes the test as \<^verbatim>\<open>True\<close> does.
\<close>

definition post_score ::
  "(cls \<Rightarrow> pydict) \<Rightarrow> (string \<Rightarrow> pydict \<Rightarrow> error + pyval) \<Rightarrow> client \<Rightarrow> pyval \<Rightarrow> pyval \<Rightarrow>
   error + pyval" where
  "post_score ns post self player upload =
     and_then (score_json ns self player upload) (\<lambda>payload.
       and_then (post (url self @ ''/post-score'') payload) (\<lambda>j.
         and_then (subscript j ''success'') (\<lambda>success.
           if success \<noteq> PBool True \<and> success \<noteq> PInt 1
           then and_then (subscript j ''message'') (\<lambda>message. Inl (TournamentApiError message))
           else Inr PNone)))"

section \<open>Vocabulary for the statements\<close>

text \<open>
  For a schema \<open>fs\<close> and keyword arguments \<open>kwargs\<close>: the required fields that are
  absent, in schema order; the fields whose value (the supplied one, or the default) the
  loop hands to \<^verbatim>\<open>c(**val)\<close>, that is, the spec is truthy and the value is a
  dictionary; and the fields the loop visits before the first absent required one.
\<close>

definition required_missing :: "pydict \<Rightarrow> pydict \<Rightarrow> string list" where
  "required_missing fs kwargs =
     map fst (filter (\<lambda>(k, c). c = PNone \<and> map_of kwargs k = None) fs)"

definition unpacked :: "pydict \<Rightarrow> pydict \<Rightarrow> string list" where
  "unpacked fs kwargs =
     map fst (filter (\<lambda>(k, c). truthy c \<and>
                        is_dict (case map_of kwargs k of None \<Rightarrow> c | Some v \<Rightarrow> v)) fs)"

definition before_missing :: "pydict \<Rightarrow> pydict \<Rightarrow> pydict" where
  "before_missing fs kwargs =
     takeWhile (\<lambda>(k, c). \<not> (c = PNone \<and> map_of kwargs k = None)) fs"

text \<open>
  Every field of \<open>fs\<close> whose spec is truthy and whose value (the supplied one, or the
  default) is a dictionary has a record class for its spec, and the constructor of that
  class returns an instance for that dictionary.
\<close>

definition nested_ok :: "(cls \<Rightarrow> pydict) \<Rightarrow> pydict \<Rightarrow> pydict \<Rightarrow> bool" where
  "nested_ok F fs kwargs =
     list_all (\<lambda>(k, c).
        if truthy c
        then (case (case map_of kwargs k of None \<Rightarrow> c | Some v \<Rightarrow> v) of
                PDict x \<Rightarrow> (case c of PClass m \<Rightarrow> \<not> isl (construct F m x) | _ \<Rightarrow> False)
              | _ \<Rightarrow> True)
        else True) fs"


definition page_docs :: "pyval \<Rightarrow> pyval list option" where
  "page_docs scoreResult =
     (case scoreResult of
        PDict r \<Rightarrow>
          (case map_of r ''data'' of
             Some (PDict dd) \<Rightarrow>
               (case map_of dd ''Scores'' of
                  Some (PDict ss) \<Rightarrow>
                    (case (map_of ss ''docs'', map_of ss ''totalDocs'') of
                       (Some (PList docs), Some tot) \<Rightarrow> Some docs
                     | _ \<Rightarrow> None)
                | _ \<Rightarrow> None)
           | _ \<Rightarrow> None)
      | _ \<Rightarrow> None)"


section \<open>Sample inputs\<close>

definition sample_breakdown :: pydict where
  "sample_breakdown =
     [(''fantastics'', PInt 100), (''excellents'', PInt 20), (''greats'', PInt 5),
      (''decents'', PInt 2), (''wayoffs'', PInt 1), (''misses'', PInt 3), (''holds'', PInt 10),
      (''holdsTotal'', PInt 12), (''minesHit'', PInt 1), (''minesAvoided'', PInt 7),
      (''minesTotal'', PInt 8), (''rolls'', PInt 2), (''rollsTotal'', PInt 2),
      (''jumps'', PInt 30), (''jumpsTotal'', PInt 31), (''hands'', PInt 1),
      (''handsTotal'', PInt 1)]"

definition sample_score :: pydict where
  "sample_score =
     [(''scoreBreakdown'', PDict sample_breakdown), (''scoreValue'', PInt 9500),
      (''passed'', PBool True), (''secondsSurvived'', PInt 120)]"

definition player_kwargs :: pydict where
  "player_kwargs = [(''nickname'', PStr ''ann''), (''_id'', PStr ''p1'')]"

definition score_without_breakdown :: pydict where
  "score_without_breakdown =
     [(''scoreValue'', PInt 9500), (''passed'', PBool True), (''secondsSurvived'', PInt 120)]"

definition score_with_instance :: pydict where
  "score_with_instance =
     [(''scoreBreakdown'', PInst ScoreBreakdown sample_breakdown), (''scoreValue'', PInt 9500),
      (''passed'', PBool True), (''secondsSurvived'', PInt 120)]"

definition player_with_mapping :: pydict where
  "player_with_mapping =
     [(''nickname'', PStr ''ann''), (''_id'', PStr ''p1''),
      (''metaData'', PDict [(''rank'', PInt 3)])]"

text \<open>
  A decoder for the examples. On the three JSON texts it knows and on text that is not
  JSON it answers as \<^verbatim>\<open>json.loads\<close> does; the examples use it on no other text.
\<close>

definition sample_decode :: "string \<Rightarrow> error + pyval" where
  "sample_decode s =
     (if s = ''{}'' then Inr (PDict [])
      else if s = ''{\"rank\": 3}'' then Inr (PDict [(''rank'', PInt 3)])
      else if s = ''null'' then Inr PNone
      else Inl JSONDecodeError)"

definition player_with_meta :: "pyval \<Rightarrow> pyval" where
  "player_with_meta m =
     PInst Player [(''nickname'', PStr ''ann''), (''shortNickname'', PStr ''''),
       (''avatarIconUrl'', PStr ''''), (''rfidUid'', PStr ''''), (''_id'', PStr ''p1''),
       (''metaData'', m), (''mountType'', PBool False)]"




text \<open>An answer to the Scores query for given documents and total.\<close>

definition scores_response :: "pyval list \<Rightarrow> pyval \<Rightarrow> pyval" where
  "scores_response docs tot =
     PDict [(''data'', PDict [(''Scores'', PDict [(''totalDocs'', tot), (''docs'', PList docs)])])]"

text \<open>
  Two endpoints for the examples: one holds 35 score documents and serves them in pages of
  ten, the other never runs out.
\<close>

definition score_doc :: "nat \<Rightarrow> pyval" where
  "score_doc i =
     PDict [(''_id'', PInt (int i)), (''playedAt'', PInt (1000 - int i)),
            (''scoreValue'', PInt 9000), (''stepChart'', PDict [(''_id'', PStr ''c1'')])]"

definition docs35 :: "pyval list" where
  "docs35 = map score_doc [0..<35]"

fun backend35 :: "query \<Rightarrow> error + pyval" where
  "backend35 (ScoresQuery offset player) =
     Inr (scores_response (take 10 (drop offset docs35)) (PInt 35))"
| "backend35 _ = Inl KeyError"

fun endless :: "query \<Rightarrow> error + pyval" where
  "endless (ScoresQuery offset player) =
     Inr (scores_response (map score_doc [offset..<offset + 10]) (PInt 100000))"
| "endless _ = Inl KeyError"

text \<open>A song, timing windows, an input event and a note score for the examples.\<close>

definition sample_song :: pydict where
  "sample_song =
     [(''title'', PStr ''Sky''), (''titleTransliteration'', PStr ''Sky''),
      (''subTitle'', PStr ''mix''), (''subTitleTransliteration'', PStr ''mix''),
      (''artist'', PStr ''kors''), (''artistTransliteration'', PStr ''kors''),
      (''durationSeconds'', PInt 125)]"

definition sample_windows :: pydict where
  "sample_windows =
     [(''fantasticTimingWindow'', PInt 15), (''excellentTimingWindow'', PInt 30),
      (''greatTimingWindow'', PInt 60), (''decentTimingWindow'', PInt 90),
      (''wayoffTimingWindow'', PInt 120), (''mineTimingWindow'', PInt 70),
      (''holdTimingWindow'', PInt 250), (''rollTimingWindow'', PInt 350)]"

definition sample_event :: pyval where
  "sample_event =
     PInst InputEvent [(''beat'', PInt 4), (''column'', PInt 0), (''released'', PBool False)]"

definition sample_note :: pyval where
  "sample_note =
     PInst NoteScore [(''beat'', PInt 4), (''column'', PInt 0), (''holdNoteScore'', PInt 0),
                      (''tapNoteScore'', PInt 5), (''offset'', PInt 3)]"

text \<open>
  The keyword arguments of a \<^verbatim>\<open>ChartUpload\<close> whose score breakdown is the mapping \<open>b\<close>,
  and the instance the constructor makes of them.
\<close>

definition upload_kwargs :: "pydict \<Rightarrow> pydict" where
  "upload_kwargs b =
     [(''hash'', PStr ''abc123''), (''meter'', PInt 9), (''playMode'', PStr ''single''),
      (''stepData'', PStr ''0001''), (''stepArtist'', PStr ''mute''),
      (''song'', PDict sample_song),
      (''score'', PDict [(''scoreBreakdown'', PDict b), (''scoreValue'', PInt 9500),
                         (''passed'', PBool True), (''secondsSurvived'', PInt 120)]),
      (''group'', PStr ''pack''), (''cabSide'', PStr ''left''), (''speedMod'', PStr ''x2''),
      (''musicRate'', PInt 1), (''modsTurn'', PStr ''none''), (''modsTransform'', PStr ''none''),
      (''modsOther'', PStr ''none''), (''noteSkin'', PStr ''metal''),
      (''perspective'', PStr ''overhead''), (''timingWindows'', PDict sample_windows),
      (''inputEvents'', PList [sample_event]), (''noteScoresWithBeats'', PList [sample_note])]"

definition score_attrs :: "pydict \<Rightarrow> pydict" where
  "score_attrs b =
     [(''scoreBreakdown'', PInst ScoreBreakdown b), (''scoreValue'', PInt 9500),
      (''passed'', PBool True), (''secondsSurvived'', PInt 120)]"

definition upload_attrs :: "pydict \<Rightarrow> pydict" where
  "upload_attrs b =
     [(''hash'', PStr ''abc123''), (''meter'', PInt 9), (''playMode'', PStr ''single''),
      (''stepData'', PStr ''0001''), (''stepArtist'', PStr ''mute''),
      (''song'', PInst Song sample_song), (''score'', PInst Score (score_attrs b)),
      (''group'', PStr ''pack''), (''cabSide'', PStr ''left''), (''speedMod'', PStr ''x2''),
      (''musicRate'', PInt 1), (''modsTurn'', PStr ''none''), (''modsTransform'', PStr ''none''),
      (''modsOther'', PStr ''none''), (''noteSkin'', PStr ''metal''),
      (''perspective'', PStr ''overhead''),
      (''timingWindows'', PInst TimingWindows sample_windows),
      (''inputEvents'', PList [sample_event]), (''noteScoresWithBeats'', PList [sample_note])]"

definition sample_upload :: "pydict \<Rightarrow> pyval" where
  "sample_upload b = PInst ChartUpload (upload_attrs b)"

definition null_misses :: pydict where
  "null_misses = AList.update ''misses'' PNone sample_breakdown"

text \<open>
  A player, a client holding an API key, and class namespaces that are empty (no example
  reads the \<^verbatim>\<open>__dict__\<close> of a class object).
\<close>

definition sample_player :: pyval where
  "sample_player = player_with_meta (PStr ''{}'')"

definition sample_client :: client where
  "sample_client = \<lparr>url = ''https://api.example'', key = Some (PStr ''k3y'')\<rparr>"

definition no_namespace :: "cls \<Rightarrow> pydict" where
  "no_namespace c = []"

section \<open>Properties of record construction\<close>

lemma construct_Inr_iff:
  "construct F n kwargs = Inr r \<longleftrightarrow>
     map_of kwargs ''self'' = None \<and> (\<exists>d. set_fields F (F n) kwargs [] = Inr d \<and> r = PInst n d)"
  by (auto simp: construct.simps split: sum.splits)

lemma not_dict_cases: "\<not> is_dict v \<Longrightarrow> (case v of PDict m \<Rightarrow> f m | _ \<Rightarrow> g) = g"
  by (cases v) simp_all

text \<open>One round of the loop when the value is not unpacked.\<close>
lemma set_fields_plain:
  "\<not> (truthy c \<and> is_dict v) \<Longrightarrow> map_of kwargs k = Some v \<Longrightarrow>
   set_fields F ((k, c) # fs) kwargs d = set_fields F fs kwargs (AList.update k v d)"
  by (cases v) auto

lemma set_fields_default:
  "map_of kwargs k = None \<Longrightarrow> c \<noteq> PNone \<Longrightarrow> \<not> (truthy c \<and> is_dict c) \<Longrightarrow>
   set_fields F ((k, c) # fs) kwargs d = set_fields F fs kwargs (AList.update k c d)"
  by (cases c) auto

lemma set_fields_missing:
  "map_of kwargs k = None \<Longrightarrow>
   set_fields F ((k, PNone) # fs) kwargs d = Inl (TournamentApiError (missing_msg k))"
  by simp

lemma set_fields_keeps:
  "set_fields F fs kwargs d = Inr d' \<Longrightarrow> k \<notin> fst ` set fs \<Longrightarrow> map_of d' k = map_of d k"
proof (induction fs arbitrary: d)
  case Nil
  then show ?case by simp
next
  case (Cons f fs)
  obtain k' c where f: "f = (k', c)" by (cases f)
  from Cons.prems(2) f have ne: "k' \<noteq> k" and notin: "k \<notin> fst ` set fs" by auto
  from Cons.prems(1) f obtain v where "set_fields F fs kwargs (AList.update k' v d) = Inr d'"
    by (auto split: sum.splits)
  from Cons.IH[OF this notin] ne show ?case by (simp add: update_conv')
qed

lemma set_fields_fails:
  "(k, PNone) \<in> set fs \<Longrightarrow> map_of kwargs k = None \<Longrightarrow> \<exists>e. set_fields F fs kwargs d = Inl e"
proof (induction fs arbitrary: d)
  case Nil
  then show ?case by simp
next
  case (Cons f fs)
  obtain k' c where f: "f = (k', c)" by (cases f)
  show ?case
  proof (cases "f = (k, PNone)")
    case True
    with Cons.prems show ?thesis by simp
  next
    case False
    with Cons.prems have "(k, PNone) \<in> set fs" by simp
    from Cons.IH[OF this Cons.prems(2)] have "\<And>d. \<exists>e. set_fields F fs kwargs d = Inl e" .
    then show ?thesis unfolding f 
      by (auto split: sum.splits option.splits)
  qed
qed

lemma set_fields_succeeds:
  "required_missing fs kwargs = [] \<Longrightarrow> unpacked fs kwargs = [] \<Longrightarrow>
   \<exists>d'. set_fields F fs kwargs d = Inr d'"
proof (induction fs arbitrary: d)
  case Nil
  then show ?case by simp
next
  case (Cons f fs)
  obtain k c where f: "f = (k, c)" by (cases f)
  from Cons.prems f have rm: "required_missing fs kwargs = []"
    and un: "unpacked fs kwargs = []"
    and req: "\<not> (c = PNone \<and> map_of kwargs k = None)"
    and this_plain: "\<not> (truthy c \<and> is_dict (case map_of kwargs k of None \<Rightarrow> c | Some v \<Rightarrow> v))"
    by (auto simp: required_missing_def unpacked_def split: if_splits)
  note IH = Cons.IH[OF rm un]
  show ?case
  proof (cases "map_of kwargs k")
    case None
    with req this_plain have "set_fields F (f # fs) kwargs d = set_fields F fs kwargs (AList.update k c d)"
      unfolding f by (intro set_fields_default) auto
    with IH show ?thesis by simp
  next
    case (Some v)
    with this_plain have "set_fields F (f # fs) kwargs d = set_fields F fs kwargs (AList.update k v d)"
      unfolding f by (intro set_fields_plain) auto
    with IH show ?thesis by simp
  qed
qed

text \<open>What a successful loop leaves under a field's name.\<close>

lemma set_fields_split:
  "set_fields F fs kwargs d = Inr d' \<Longrightarrow> distinct (map fst fs) \<Longrightarrow> (k, c) \<in> set fs \<Longrightarrow>
   \<exists>d0 fs'. set_fields F ((k, c) # fs') kwargs d0 = Inr d' \<and> k \<notin> fst ` set fs'"
proof (induction fs arbitrary: d)
  case Nil
  then show ?case by simp
next
  case (Cons f fs)
  show ?case
  proof (cases "f = (k, c)")
    case True
    with Cons.prems show ?thesis by (intro exI[of _ d] exI[of _ fs]) (auto simp: image_iff)
  next
    case False
    obtain k' c' where f: "f = (k', c')" by (cases f)
    from False Cons.prems have mem: "(k, c) \<in> set fs" and dist: "distinct (map fst fs)" by auto
    from Cons.prems(1) f obtain v where "set_fields F fs kwargs (AList.update k' v d) = Inr d'"
      by (auto split: sum.splits)
    from Cons.IH[OF this dist mem] show ?thesis .
  qed
qed

lemma set_fields_absent:
  assumes "set_fields F fs kwargs d = Inr d'" "distinct (map fst fs)" "(k, c) \<in> set fs"
    and "map_of kwargs k = None"
  shows "map_of d' k = Some c"
proof -
  from set_fields_split[OF assms(1-3)] obtain d0 fs'
    where step: "set_fields F ((k, c) # fs') kwargs d0 = Inr d'" and notin: "k \<notin> fst ` set fs'"
    by blast
  from step assms(4) have "set_fields F fs' kwargs (AList.update k c d0) = Inr d'"
    by (auto split: sum.splits if_splits pyval.splits)
  from set_fields_keeps[OF this notin] show ?thesis by (simp add: update_conv')
qed

lemma set_fields_asis:
  assumes "set_fields F fs kwargs d = Inr d'" "distinct (map fst fs)" "(k, c) \<in> set fs"
    and "map_of kwargs k = Some v" "\<not> (truthy c \<and> is_dict v)"
  shows "map_of d' k = Some v"
proof -
  from set_fields_split[OF assms(1-3)] obtain d0 fs'
    where step: "set_fields F ((k, c) # fs') kwargs d0 = Inr d'" and notin: "k \<notin> fst ` set fs'"
    by blast
  from step set_fields_plain[OF assms(5,4)]
  have "set_fields F fs' kwargs (AList.update k v d0) = Inr d'" by simp
  from set_fields_keeps[OF this notin] show ?thesis by (simp add: update_conv')
qed

lemma set_fields_unpacked:
  assumes "set_fields F fs kwargs d = Inr d'" "distinct (map fst fs)" "(k, c) \<in> set fs"
    and "map_of kwargs k = Some (PDict x)" "truthy c"
  shows "\<exists>m r. c = PClass m \<and> construct F m x = Inr r \<and> map_of d' k = Some r"
proof -
  from set_fields_split[OF assms(1-3)] obtain d0 fs'
    where step: "set_fields F ((k, c) # fs') kwargs d0 = Inr d'" and notin: "k \<notin> fst ` set fs'"
    by blast
  from step assms(4,5) obtain m where cm: "c = PClass m"
    by (cases c) (auto split: sum.splits)
  from step assms(4) cm obtain r where r: "construct F m x = Inr r"
    and rest: "set_fields F fs' kwargs (AList.update k r d0) = Inr d'"
    by (auto split: sum.splits simp del: construct.simps)
  from set_fields_keeps[OF rest notin] have "map_of d' k = Some r" by (simp add: update_conv')
  with cm r show ?thesis by blast
qed

lemma distinct_fields: "distinct (map fst (fields n))"
  by (cases n) simp_all

text \<open>A mapping that holds the key \<^verbatim>\<open>self\<close> cannot be unpacked into the constructor.\<close>

lemma construct_self_key:
  "construct fields Player ((''self'', PInt 1) # player_kwargs) = Inl TypeError"
  by (simp add: construct.simps)

text \<open>One round of the loop when the field is there and its nested construction returns.\<close>

lemma set_fields_round:
  assumes "\<not> (c = PNone \<and> map_of kwargs k = None)" and "nested_ok F [(k, c)] kwargs"
  shows "\<exists>w. set_fields F ((k, c) # fs) kwargs d = set_fields F fs kwargs (AList.update k w d)"
proof (cases "truthy c \<and> is_dict (case map_of kwargs k of None \<Rightarrow> c | Some v \<Rightarrow> v)")
  case False
  show ?thesis
  proof (cases "map_of kwargs k")
    case None
    with assms(1) False
    have "set_fields F ((k, c) # fs) kwargs d = set_fields F fs kwargs (AList.update k c d)"
      by (intro set_fields_default) auto
    then show ?thesis by blast
  next
    case (Some v)
    with False
    have "set_fields F ((k, c) # fs) kwargs d = set_fields F fs kwargs (AList.update k v d)"
      by (intro set_fields_plain) auto
    then show ?thesis by blast
  qed
next
  case True
  then obtain x where x: "(case map_of kwargs k of None \<Rightarrow> c | Some v \<Rightarrow> v) = PDict x"
    by (cases "case map_of kwargs k of None \<Rightarrow> c | Some v \<Rightarrow> v") auto
  with True assms(2) obtain m where m: "c = PClass m" and ok: "\<not> isl (construct F m x)"
    by (cases c) (auto simp: nested_ok_def)
  from ok obtain r where r: "construct F m x = Inr r" by (cases "construct F m x") auto
  from m x obtain "map_of kwargs k = Some (PDict x)" by (cases "map_of kwargs k") auto
  with m r show ?thesis by auto
qed

lemma set_fields_first_missing_nested:
  "required_missing fs kwargs \<noteq> [] \<Longrightarrow> nested_ok F (before_missing fs kwargs) kwargs \<Longrightarrow>
   set_fields F fs kwargs d =
     Inl (TournamentApiError (missing_msg (hd (required_missing fs kwargs))))"
proof (induction fs arbitrary: d)
  case Nil
  then show ?case by (simp add: required_missing_def)
next
  case (Cons f fs)
  obtain k c where f: "f = (k, c)" by (cases f)
  show ?case
  proof (cases "c = PNone \<and> map_of kwargs k = None")
    case True
    then show ?thesis by (simp add: f required_missing_def)
  next
    case False
    with Cons.prems f have rm: "required_missing fs kwargs \<noteq> []"
      and rq: "required_missing (f # fs) kwargs = required_missing fs kwargs"
      and bm: "before_missing (f # fs) kwargs = f # before_missing fs kwargs"
      by (auto simp: required_missing_def before_missing_def split: if_splits)
    from Cons.prems(2) bm f have ok1: "nested_ok F [(k, c)] kwargs"
      and ok: "nested_ok F (before_missing fs kwargs) kwargs"
      by (simp_all add: nested_ok_def)
    from set_fields_round[OF False ok1] obtain w
      where "set_fields F (f # fs) kwargs d = set_fields F fs kwargs (AList.update k w d)"
      unfolding f by blast
    with Cons.IH[OF rm ok] rq show ?thesis by simp
  qed
qed

lemma set_fields_succeeds_nested:
  "required_missing fs kwargs = [] \<Longrightarrow> nested_ok F fs kwargs \<Longrightarrow>
   \<exists>d'. set_fields F fs kwargs d = Inr d'"
proof (induction fs arbitrary: d)
  case Nil
  then show ?case by simp
next
  case (Cons f fs)
  obtain k c where f: "f = (k, c)" by (cases f)
  from Cons.prems(1) f have rm: "required_missing fs kwargs = []"
    and req: "\<not> (c = PNone \<and> map_of kwargs k = None)"
    by (auto simp: required_missing_def split: if_splits)
  from Cons.prems(2) f have ok1: "nested_ok F [(k, c)] kwargs" and ok: "nested_ok F fs kwargs"
    by (simp_all add: nested_ok_def)
  from set_fields_round[OF req ok1] obtain w
    where "set_fields F (f # fs) kwargs d = set_fields F fs kwargs (AList.update k w d)"
    unfolding f by blast
  with Cons.IH[OF rm ok] show ?case by simp
qed

text \<open>
  Claim C1, as amended. Construction fails whenever some required field (spec
  \<^verbatim>\<open>None\<close>) is absent from the input. The error is the \<^verbatim>\<open>TournamentApiError\<close> naming the
  first absent required field, in schema order, when the input has no key \<^verbatim>\<open>self\<close> and
  every field before it that has a truthy spec and a dictionary for its value is a
  nested-record field whose own construction returns. When every required field is
  supplied, the input has no key \<^verbatim>\<open>self\<close>, and every field that has a truthy spec and a
  dictionary for its value is a nested-record field whose own construction returns, then
  construction succeeds, and the attribute of every supplied schema field equals the
  supplied value unless the field's spec is truthy and the supplied value is a dictionary.
\<close>

theorem construct_required:
  "(required_missing (F n) kwargs \<noteq> [] \<longrightarrow> (\<exists>e. construct F n kwargs = Inl e)) \<and>
   (required_missing (F n) kwargs \<noteq> [] \<and> map_of kwargs ''self'' = None \<and>
    nested_ok F (before_missing (F n) kwargs) kwargs \<longrightarrow>
      construct F n kwargs =
        Inl (TournamentApiError (missing_msg (hd (required_missing (F n) kwargs))))) \<and>
   (required_missing (F n) kwargs = [] \<and> map_of kwargs ''self'' = None \<and>
    nested_ok F (F n) kwargs \<and> distinct (map fst (F n)) \<longrightarrow>
      (\<exists>d. construct F n kwargs = Inr (PInst n d) \<and>
           (\<forall>k c v. (k, c) \<in> set (F n) \<and> map_of kwargs k = Some v \<and>
                    \<not> (truthy c \<and> is_dict v) \<longrightarrow> map_of d k = Some v)))"
proof (intro conjI impI)
  assume "required_missing (F n) kwargs \<noteq> []"
  then obtain k where "(k, PNone) \<in> set (F n)" "map_of kwargs k = None"
    by (auto simp: required_missing_def filter_empty_conv)
  from set_fields_fails[OF this, of F "[]"] show "\<exists>e. construct F n kwargs = Inl e"
    by (auto simp: construct.simps)
next
  assume "required_missing (F n) kwargs \<noteq> [] \<and> map_of kwargs ''self'' = None \<and>
    nested_ok F (before_missing (F n) kwargs) kwargs"
  then show "construct F n kwargs =
        Inl (TournamentApiError (missing_msg (hd (required_missing (F n) kwargs))))"
    by (simp add: set_fields_first_missing_nested construct.simps)
next
  assume a: "required_missing (F n) kwargs = [] \<and> map_of kwargs ''self'' = None \<and>
    nested_ok F (F n) kwargs \<and> distinct (map fst (F n))"
  then obtain d where d: "set_fields F (F n) kwargs [] = Inr d"
    using set_fields_succeeds_nested by blast
  have v: "\<forall>k c v. (k, c) \<in> set (F n) \<and> map_of kwargs k = Some v \<and>
                    \<not> (truthy c \<and> is_dict v) \<longrightarrow> map_of d k = Some v"
    using set_fields_asis[OF d] a by blast
  from d a have "construct F n kwargs = Inr (PInst n d)" by (simp add: construct.simps)
  with v show "\<exists>d. construct F n kwargs = Inr (PInst n d) \<and>
           (\<forall>k c v. (k, c) \<in> set (F n) \<and> map_of kwargs k = Some v \<and>
                    \<not> (truthy c \<and> is_dict v) \<longrightarrow> map_of d k = Some v)"
    by blast
qed

text \<open>
  The theorem at \<^verbatim>\<open>Player(nickname='ann')\<close>, at \<^verbatim>\<open>Player(nickname='ann', _id='p1')\<close>, and
  at \<^verbatim>\<open>Score\<close> with \<^verbatim>\<open>scoreBreakdown\<close> given as a dictionary.
\<close>

theorem construct_required_witness:
  "construct fields Player [(''nickname'', PStr ''ann'')] =
     Inl (TournamentApiError (missing_msg ''_id'')) \<and>
   (\<exists>d. construct fields Player player_kwargs = Inr (PInst Player d) \<and>
        map_of d ''nickname'' = Some (PStr ''ann'') \<and> map_of d ''_id'' = Some (PStr ''p1'')) \<and>
   (\<exists>d. construct fields Score sample_score = Inr (PInst Score d) \<and>
        map_of d ''scoreValue'' = Some (PInt 9500) \<and> map_of d ''passed'' = Some (PBool True))"
proof -
  let ?kw = "[(''nickname'', PStr ''ann'')]"
  have m: "required_missing (fields Player) ?kw = [''_id'']"
    by (simp add: required_missing_def)
  have u: "nested_ok fields (before_missing (fields Player) ?kw) ?kw"
    by (simp add: nested_ok_def before_missing_def)
  have s0: "map_of ?kw ''self'' = None" by simp
  have r: "required_missing (fields Player) player_kwargs = []"
    by (simp add: required_missing_def player_kwargs_def)
  have p: "nested_ok fields (fields Player) player_kwargs"
    by (simp add: nested_ok_def player_kwargs_def)
  have s1: "map_of player_kwargs ''self'' = None" by (simp add: player_kwargs_def)
  have k: "(''nickname'', PNone) \<in> set (fields Player)" "(''_id'', PNone) \<in> set (fields Player)"
    "map_of player_kwargs ''nickname'' = Some (PStr ''ann'')"
    "map_of player_kwargs ''_id'' = Some (PStr ''p1'')"
    by (simp_all add: player_kwargs_def)
  have r2: "required_missing (fields Score) sample_score = []"
    by (simp add: required_missing_def sample_score_def)
  have p2: "nested_ok fields (fields Score) sample_score"
    by (simp add: nested_ok_def construct.simps sample_score_def sample_breakdown_def)
  have s2: "map_of sample_score ''self'' = None" by (simp add: sample_score_def)
  have k2: "(''scoreValue'', PNone) \<in> set (fields Score)" "(''passed'', PNone) \<in> set (fields Score)"
    "map_of sample_score ''scoreValue'' = Some (PInt 9500)"
    "map_of sample_score ''passed'' = Some (PBool True)"
    by (simp_all add: sample_score_def)
  from construct_required[of fields Player ?kw] m u s0
  have a: "construct fields Player ?kw = Inl (TournamentApiError (missing_msg ''_id''))"
    by simp
  from construct_required[of fields Player player_kwargs] r p s1 distinct_fields[of Player]
  obtain d where d: "construct fields Player player_kwargs = Inr (PInst Player d)"
    and v: "\<forall>k c v. (k, c) \<in> set (fields Player) \<and> map_of player_kwargs k = Some v \<and>
                  \<not> (truthy c \<and> is_dict v) \<longrightarrow> map_of d k = Some v"
    by blast
  from v k have b: "map_of d ''nickname'' = Some (PStr ''ann'')" "map_of d ''_id'' = Some (PStr ''p1'')"
    by force+
  from construct_required[of fields Score sample_score] r2 p2 s2 distinct_fields[of Score]
  obtain e where e: "construct fields Score sample_score = Inr (PInst Score e)"
    and w: "\<forall>k c v. (k, c) \<in> set (fields Score) \<and> map_of sample_score k = Some v \<and>
                  \<not> (truthy c \<and> is_dict v) \<longrightarrow> map_of e k = Some v"
    by blast
  from w k2 have c: "map_of e ''scoreValue'' = Some (PInt 9500)" "map_of e ''passed'' = Some (PBool True)"
    by force+
  from a b c d e show ?thesis by blast
qed

text \<open>
  The claim as first stated fails at \<^verbatim>\<open>Score\<close> with every required field supplied and
  \<^verbatim>\<open>scoreBreakdown\<close> given as a dictionary: the attribute is an instance, not the
  supplied dictionary.
\<close>

theorem construct_required_counterexample:
  "required_missing (fields Score) sample_score = [] \<and>
   required_missing (fields ScoreBreakdown) sample_breakdown = [] \<and>
   map_of sample_score ''scoreBreakdown'' = Some (PDict sample_breakdown) \<and>
   and_then (construct fields Score sample_score) (\<lambda>r. getattr r ''scoreBreakdown'') =
     Inr (PInst ScoreBreakdown sample_breakdown) \<and>
   PInst ScoreBreakdown sample_breakdown \<noteq> PDict sample_breakdown"
  by (simp add: required_missing_def construct.simps sample_score_def sample_breakdown_def)

text \<open>
  Claim C2. Let field \<open>k\<close> have the record class \<open>m\<close> for its spec, and let construction
  return the instance \<open>r\<close>. If the supplied value is a dictionary \<open>x\<close>, the attribute is
  the instance of \<open>m\<close> that \<^verbatim>\<open>m(**x)\<close> returns, so the fields of \<open>x\<close> are converted by the
  same rule; if the supplied value is an instance, the attribute is that instance; and in
  no case is the attribute a dictionary.
\<close>

theorem nested_field_hydrated:
  assumes "distinct (map fst (F n))" and "map_of (F n) k = Some (PClass m)"
    and "construct F n kwargs = Inr r"
  shows "(\<forall>x. map_of kwargs k = Some (PDict x) \<longrightarrow>
            (\<exists>d. construct F m x = Inr (PInst m d) \<and> getattr r k = Inr (PInst m d))) \<and>
         (\<forall>c d. map_of kwargs k = Some (PInst c d) \<longrightarrow> getattr r k = Inr (PInst c d)) \<and>
         (\<forall>x. getattr r k \<noteq> Inr (PDict x))"
proof -
  from assms(3) obtain a where a: "set_fields F (F n) kwargs [] = Inr a" and r: "r = PInst n a"
    by (auto simp: construct_Inr_iff)
  from assms(2) have mem: "(k, PClass m) \<in> set (F n)" by (rule map_of_SomeD)
  have 1: "\<exists>d. construct F m x = Inr (PInst m d) \<and> getattr r k = Inr (PInst m d)"
    if "map_of kwargs k = Some (PDict x)" for x
  proof -
    from set_fields_unpacked[OF a assms(1) mem that] obtain r'
      where "construct F m x = Inr r'" "map_of a k = Some r'" by auto
    then show ?thesis by (auto simp: construct_Inr_iff r)
  qed
  have 2: "getattr r k = Inr (PInst c d)" if "map_of kwargs k = Some (PInst c d)" for c d
    using set_fields_asis[OF a assms(1) mem that] by (simp add: r)
  have 3: "getattr r k \<noteq> Inr (PDict x)" for x
  proof (cases "map_of kwargs k")
    case None
    from set_fields_absent[OF a assms(1) mem None] show ?thesis by (simp add: r)
  next
    case (Some v)
    show ?thesis
    proof (cases "is_dict v")
      case True
      then obtain y where "v = PDict y" by (cases v) auto
      with 1 Some show ?thesis by auto
    next
      case False
      with set_fields_asis[OF a assms(1) mem Some] show ?thesis by (auto simp: r)
    qed
  qed
  from 1 2 3 show ?thesis by blast
qed

theorem nested_field_hydrated_witness:
  "and_then (construct fields Score sample_score) (\<lambda>r. getattr r ''scoreBreakdown'') =
     construct fields ScoreBreakdown sample_breakdown \<and>
   construct fields ScoreBreakdown sample_breakdown = Inr (PInst ScoreBreakdown sample_breakdown) \<and>
   and_then (construct fields Score score_with_instance) (\<lambda>r. getattr r ''scoreBreakdown'') =
     Inr (PInst ScoreBreakdown sample_breakdown)"
proof -
  have f: "map_of (fields Score) ''scoreBreakdown'' = Some (PClass ScoreBreakdown)" by simp
  obtain r1 where r1: "construct fields Score sample_score = Inr r1"
    by (simp add: construct.simps sample_score_def sample_breakdown_def)
  obtain r2 where r2: "construct fields Score score_with_instance = Inr r2"
    by (simp add: construct.simps score_with_instance_def)
  have k1: "map_of sample_score ''scoreBreakdown'' = Some (PDict sample_breakdown)"
    by (simp add: sample_score_def)
  have k2: "map_of score_with_instance ''scoreBreakdown'' = Some (PInst ScoreBreakdown sample_breakdown)"
    by (simp add: score_with_instance_def)
  have b: "construct fields ScoreBreakdown sample_breakdown = Inr (PInst ScoreBreakdown sample_breakdown)"
    by (simp add: construct.simps sample_breakdown_def)
  from nested_field_hydrated[OF distinct_fields f r1] k1
  obtain d where "construct fields ScoreBreakdown sample_breakdown = Inr (PInst ScoreBreakdown d)"
    "getattr r1 ''scoreBreakdown'' = Inr (PInst ScoreBreakdown d)" by blast
  with r1 have 1: "and_then (construct fields Score sample_score) (\<lambda>r. getattr r ''scoreBreakdown'') =
     construct fields ScoreBreakdown sample_breakdown" by simp
  from nested_field_hydrated[OF distinct_fields f r2] k2
  have "getattr r2 ''scoreBreakdown'' = Inr (PInst ScoreBreakdown sample_breakdown)" by blast
  with r2 have 2: "and_then (construct fields Score score_with_instance) (\<lambda>r. getattr r ''scoreBreakdown'') =
     Inr (PInst ScoreBreakdown sample_breakdown)" by simp
  from 1 2 b show ?thesis by blast
qed

text \<open>
  Claim C10. Let field \<open>k\<close> have the record class \<open>m\<close> for its spec and be absent from the
  input. Then the attribute \<open>k\<close> of any instance construction returns is the class object
  \<open>m\<close> itself, and construction does return an instance when every required field is
  supplied, no field has a truthy spec and a dictionary for its value, and the input has
  no key \<^verbatim>\<open>self\<close>.
\<close>

theorem omitted_nested_field_is_class:
  assumes "distinct (map fst (F n))" and "map_of (F n) k = Some (PClass m)"
    and "map_of kwargs k = None"
  shows "(\<forall>r. construct F n kwargs = Inr r \<longrightarrow> getattr r k = Inr (PClass m)) \<and>
         (required_missing (F n) kwargs = [] \<and> unpacked (F n) kwargs = [] \<and>
          map_of kwargs ''self'' = None \<longrightarrow>
            (\<exists>d. construct F n kwargs = Inr (PInst n d)))"
proof (intro conjI allI impI)
  fix r assume "construct F n kwargs = Inr r"
  then obtain a where a: "set_fields F (F n) kwargs [] = Inr a" and r: "r = PInst n a"
    by (auto simp: construct_Inr_iff)
  from assms(2) have mem: "(k, PClass m) \<in> set (F n)" by (rule map_of_SomeD)
  from set_fields_absent[OF a assms(1) mem assms(3)] show "getattr r k = Inr (PClass m)"
    by (simp add: r)
next
  assume a: "required_missing (F n) kwargs = [] \<and> unpacked (F n) kwargs = [] \<and>
          map_of kwargs ''self'' = None"
  then obtain d where "set_fields F (F n) kwargs [] = Inr d"
    using set_fields_succeeds by blast
  with a show "\<exists>d. construct F n kwargs = Inr (PInst n d)" by (simp add: construct.simps)
qed

theorem omitted_nested_field_is_class_witness:
  "and_then (construct fields Score score_without_breakdown) (\<lambda>r. getattr r ''scoreBreakdown'') =
     Inr (PClass ScoreBreakdown)"
proof -
  have f: "map_of (fields Score) ''scoreBreakdown'' = Some (PClass ScoreBreakdown)" by simp
  have k: "map_of score_without_breakdown ''scoreBreakdown'' = None"
    by (simp add: score_without_breakdown_def)
  have r: "required_missing (fields Score) score_without_breakdown = []"
    by (simp add: required_missing_def score_without_breakdown_def)
  have u: "unpacked (fields Score) score_without_breakdown = []"
    by (simp add: unpacked_def score_without_breakdown_def)
  have s: "map_of score_without_breakdown ''self'' = None"
    by (simp add: score_without_breakdown_def)
  note T = omitted_nested_field_is_class[where F = fields and n = Score, OF distinct_fields f k]
  from T r u s obtain d where d: "construct fields Score score_without_breakdown = Inr (PInst Score d)"
    by blast
  with T have "getattr (PInst Score d) ''scoreBreakdown'' = Inr (PClass ScoreBreakdown)" by blast
  with d show ?thesis by simp
qed

text \<open>
  Claim C7 at \<^verbatim>\<open>Player(nickname='ann', _id='p1', metaData={'rank': 3})\<close>. The spec of
  \<^verbatim>\<open>metaData\<close> is the non-empty string \<^verbatim>\<open>"{}"\<close>, which is truthy, so the loop calls it
  with the supplied dictionary: the constructor raises \<^verbatim>\<open>TypeError\<close> and assigns nothing.
\<close>

theorem metaData_mapping_raises:
  "unpacked (fields Player) player_with_mapping = [''metaData''] \<and>
   construct fields Player player_with_mapping = Inl TypeError"
  by (simp add: unpacked_def construct.simps player_with_mapping_def)

section \<open>Properties of the client\<close>

text \<open>
  Claim C8, as amended. \<^verbatim>\<open>getMeta\<close> returns \<^verbatim>\<open>None\<close> when \<^verbatim>\<open>metaData\<close> is \<^verbatim>\<open>None\<close>.
  When \<^verbatim>\<open>metaData\<close> is a string that the decoder turns into a JSON object, it returns
  the value stored under the key when the object has the key, and \<^verbatim>\<open>None\<close> when it has
  not.
\<close>

theorem getMeta_result:
  "(getattr self ''metaData'' = Inr PNone \<longrightarrow> getMeta decode self field = Inr PNone) \<and>
   (\<forall>s d. getattr self ''metaData'' = Inr (PStr s) \<and> decode s = Inr (PDict d) \<longrightarrow>
      getMeta decode self field = Inr (case map_of d field of Some v \<Rightarrow> v | None \<Rightarrow> PNone))"
  by (auto simp: getMeta_def json_loads_def split: option.splits)

theorem getMeta_result_witness:
  "getMeta sample_decode (player_with_meta PNone) ''rank'' = Inr PNone \<and>
   getMeta sample_decode (player_with_meta (PStr ''{\"rank\": 3}'')) ''rank'' = Inr (PInt 3) \<and>
   getMeta sample_decode (player_with_meta (PStr ''{}'')) ''rank'' = Inr PNone"
proof -
  have a: "getattr (player_with_meta m) ''metaData'' = Inr m" for m
    by (simp add: player_with_meta_def)
  have d: "sample_decode ''{\"rank\": 3}'' = Inr (PDict [(''rank'', PInt 3)])"
    "sample_decode ''{}'' = Inr (PDict [])"
    by (simp_all add: sample_decode_def)
  from getMeta_result[of "player_with_meta PNone" sample_decode "''rank''"] a
  have 1: "getMeta sample_decode (player_with_meta PNone) ''rank'' = Inr PNone" by blast
  from getMeta_result[of "player_with_meta (PStr ''{\"rank\": 3}'')" sample_decode "''rank''"] a d(1)
  have "getMeta sample_decode (player_with_meta (PStr ''{\"rank\": 3}'')) ''rank'' =
     Inr (case map_of [(''rank'', PInt 3)] ''rank'' of Some v \<Rightarrow> v | None \<Rightarrow> PNone)" by blast
  then have 2: "getMeta sample_decode (player_with_meta (PStr ''{\"rank\": 3}'')) ''rank'' = Inr (PInt 3)"
    by simp
  from getMeta_result[of "player_with_meta (PStr ''{}'')" sample_decode "''rank''"] a d(2)
  have "getMeta sample_decode (player_with_meta (PStr ''{}'')) ''rank'' =
     Inr (case map_of [] ''rank'' of Some v \<Rightarrow> v | None \<Rightarrow> PNone)" by blast
  then have 3: "getMeta sample_decode (player_with_meta (PStr ''{}'')) ''rank'' = Inr PNone"
    by simp
  from 1 2 3 show ?thesis by blast
qed

text \<open>
  \<^verbatim>\<open>getMeta\<close> does raise: on a \<^verbatim>\<open>metaData\<close> that is not JSON, on one that decodes to
  \<^verbatim>\<open>null\<close>, and on one that is not a string.
\<close>

theorem getMeta_result_counterexample:
  "getMeta sample_decode (player_with_meta (PStr ''oops'')) ''rank'' = Inl JSONDecodeError \<and>
   getMeta sample_decode (player_with_meta (PStr ''null'')) ''rank'' = Inl TypeError \<and>
   getMeta sample_decode (player_with_meta (PInt 5)) ''rank'' = Inl TypeError"
  by (simp add: getMeta_def json_loads_def sample_decode_def player_with_meta_def)





lemma page_docs_shape:
  "page_docs scoreResult = Some docs \<Longrightarrow>
   \<exists>r dd ss tot. scoreResult = PDict r \<and> map_of r ''data'' = Some (PDict dd) \<and>
     map_of dd ''Scores'' = Some (PDict ss) \<and> map_of ss ''docs'' = Some (PList docs) \<and>
     map_of ss ''totalDocs'' = Some tot"
  by (auto simp: page_docs_def split: pyval.splits option.splits)

lemma page_step_docs:
  assumes "page_docs scoreResult = Some docs"
  shows "page_step scoreResult offset scores =
     (if docs = [] then Inr (0, offset, scores)
      else Inr (length docs, offset + 10, scores @ docs))"
proof -
  from page_docs_shape[OF assms] obtain r dd ss tot where "scoreResult = PDict r"
    "map_of r ''data'' = Some (PDict dd)" "map_of dd ''Scores'' = Some (PDict ss)"
    "map_of ss ''docs'' = Some (PList docs)" "map_of ss ''totalDocs'' = Some tot" by blast
  then show ?thesis by (simp add: page_step_def score_docs_def)
qed

lemma score_pages_more:
  assumes "graph (ScoresQuery offset playerId) = Inr scoreResult"
    and "page_docs scoreResult = Some docs" and "docs \<noteq> []"
  shows "score_pages graph playerId offset scores fetched =
     (if 100 < offset + 10 then Inr (scores @ docs, fetched @ [offset])
      else score_pages graph playerId (offset + 10) (scores @ docs) (fetched @ [offset]))"
  using assms
  by (subst score_pages.simps) (simp add: page_step_docs)

lemma score_pages_last:
  assumes "graph (ScoresQuery offset playerId) = Inr scoreResult"
    and "page_docs scoreResult = Some []"
  shows "score_pages graph playerId offset scores fetched = Inr (scores, fetched @ [offset])"
  using assms
  by (subst score_pages.simps) (simp add: page_step_docs)

text \<open>
  Claim C5. Let the endpoint answer every page request with a page that is not empty. Then
  the loop of \<^verbatim>\<open>get_score_history\<close> requests the offsets 0, 10, ..., 100 and no other: the
  offset starts at 0, grows by 10 with each page, and the loop ends when it exceeds 100.
  When no page holds more than the ten documents the query asks for, the scores
  accumulated are at most 110.
\<close>

theorem score_pages_cap:
  assumes "\<forall>offset. \<exists>scoreResult docs. graph (ScoresQuery offset playerId) = Inr scoreResult \<and>
             page_docs scoreResult = Some docs \<and> docs \<noteq> []"
  shows "\<exists>scores. score_pages graph playerId 0 [] [] =
             Inr (scores, [0, 10, 20, 30, 40, 50, 60, 70, 80, 90, 100]) \<and>
           ((\<forall>offset scoreResult docs. graph (ScoresQuery offset playerId) = Inr scoreResult \<and>
                page_docs scoreResult = Some docs \<longrightarrow> length docs \<le> 10) \<longrightarrow>
            length scores \<le> 110)"
proof -
  from assms have "\<exists>D. \<forall>offset. \<exists>scoreResult. graph (ScoresQuery offset playerId) = Inr scoreResult \<and>
             page_docs scoreResult = Some (D offset) \<and> D offset \<noteq> []"
    by metis
  then obtain D where D: "\<And>offset. \<exists>scoreResult. graph (ScoresQuery offset playerId) = Inr scoreResult \<and>
             page_docs scoreResult = Some (D offset) \<and> D offset \<noteq> []"
    by blast
  have step: "score_pages graph playerId offset scores fetched =
     (if 100 < offset + 10 then Inr (scores @ D offset, fetched @ [offset])
      else score_pages graph playerId (offset + 10) (scores @ D offset) (fetched @ [offset]))"
    for offset scores fetched
    using D[of offset] score_pages_more by blast
  let ?all = "D 0 @ D 10 @ D 20 @ D 30 @ D 40 @ D 50 @ D 60 @ D 70 @ D 80 @ D 90 @ D 100"
  have run: "score_pages graph playerId 0 [] [] =
      Inr (?all, [0, 10, 20, 30, 40, 50, 60, 70, 80, 90, 100])"
    by (simp add: step)
  have "length ?all \<le> 110"
    if L: "\<forall>offset scoreResult docs. graph (ScoresQuery offset playerId) = Inr scoreResult \<and>
                page_docs scoreResult = Some docs \<longrightarrow> length docs \<le> 10"
  proof -
    have len: "length (D offset) \<le> 10" for offset using D[of offset] L by blast
    show ?thesis
      using len[of 0] len[of 10] len[of 20] len[of 30] len[of 40] len[of 50] len[of 60]
        len[of 70] len[of 80] len[of 90] len[of 100] by simp
  qed
  with run show ?thesis by blast
qed

lemma take_drop_35:
  "length (xs :: 'a list) = 35 \<Longrightarrow>
   take 10 xs @ take 10 (drop 10 xs) @ take 10 (drop 20 xs) @ take 10 (drop 30 xs) = xs"
proof -
  assume l: "length xs = 35"
  have "take 10 xs @ take 10 (drop 10 xs) = take 20 xs"
    using take_add[of 10 10 xs] by simp
  moreover have "take 20 xs @ take 10 (drop 20 xs) = take 30 xs"
    using take_add[of 20 10 xs] by simp
  moreover have "take 30 xs @ take 10 (drop 30 xs) = take 40 xs"
    using take_add[of 30 10 xs] by simp
  moreover have "take 40 xs = xs" using l by simp
  ultimately show ?thesis by (metis append.assoc)
qed

text \<open>
  Claim C6, as amended. Let the endpoint hold 35 documents and serve the ten from the
  requested offset on. Then the loop ends with exactly those 35 documents, after five
  requests, at the offsets 0, 10, 20, 30 and 40: the fourth page is short but not empty, so
  the loop asks once more and ends on the empty page.
\<close>

theorem score_pages_35:
  assumes "length docs = 35"
    and "\<forall>offset. graph (ScoresQuery offset playerId) =
           Inr (scores_response (take 10 (drop offset docs)) tot)"
  shows "score_pages graph playerId 0 [] [] = Inr (docs, [0, 10, 20, 30, 40])"
proof -
  have pd: "page_docs (scores_response ds tot) = Some ds" for ds
    by (simp add: page_docs_def scores_response_def)
  have more: "score_pages graph playerId offset scores fetched =
     (if 100 < offset + 10 then Inr (scores @ take 10 (drop offset docs), fetched @ [offset])
      else score_pages graph playerId (offset + 10) (scores @ take 10 (drop offset docs))
             (fetched @ [offset]))"
    if "offset < 35" for offset scores fetched
  proof -
    from that assms(1) have ne: "take 10 (drop offset docs) \<noteq> []" by simp
    have g: "graph (ScoresQuery offset playerId) =
           Inr (scores_response (take 10 (drop offset docs)) tot)" using assms(2) by blast
    from score_pages_more[where graph = graph, OF g pd ne] show ?thesis .
  qed
  have last: "score_pages graph playerId 40 scores fetched = Inr (scores, fetched @ [40])"
    for scores fetched
  proof -
    from assms(1) have "take 10 (drop 40 docs) = []" by simp
    moreover have g: "graph (ScoresQuery 40 playerId) =
           Inr (scores_response (take 10 (drop 40 docs)) tot)" using assms(2) by blast
    ultimately show ?thesis
      using score_pages_last[where graph = graph, OF g] pd by simp
  qed
  have "score_pages graph playerId 0 [] [] =
     Inr (take 10 docs @ take 10 (drop 10 docs) @ take 10 (drop 20 docs) @ take 10 (drop 30 docs),
          [0, 10, 20, 30, 40])"
    by (simp add: more last)
  with take_drop_35[OF assms(1)] show ?thesis by simp
qed

theorem score_pages_cap_witness:
  "\<exists>scores. score_pages endless (PStr ''p1'') 0 [] [] =
             Inr (scores, [0, 10, 20, 30, 40, 50, 60, 70, 80, 90, 100]) \<and>
           length scores \<le> 110"
proof -
  have ne: "\<forall>offset. \<exists>scoreResult docs. endless (ScoresQuery offset (PStr ''p1'')) = Inr scoreResult \<and>
             page_docs scoreResult = Some docs \<and> docs \<noteq> []"
    by (simp add: page_docs_def scores_response_def)
  have le: "\<forall>offset scoreResult docs. endless (ScoresQuery offset (PStr ''p1'')) = Inr scoreResult \<and>
                page_docs scoreResult = Some docs \<longrightarrow> length docs \<le> 10"
    by (auto simp: page_docs_def scores_response_def)
  from score_pages_cap[OF ne] le show ?thesis by blast
qed

theorem score_pages_35_witness:
  "score_pages backend35 (PStr ''p1'') 0 [] [] = Inr (docs35, [0, 10, 20, 30, 40])"
proof -
  have l: "length docs35 = 35" by (simp add: docs35_def)
  have g: "\<forall>offset. backend35 (ScoresQuery offset (PStr ''p1'')) =
           Inr (scores_response (take 10 (drop offset docs35)) (PInt 35))"
    by simp
  from score_pages_35[OF l g] show ?thesis .
qed

text \<open>The claim as first stated (four requests) fails at this endpoint: there are five.\<close>

theorem score_pages_35_counterexample:
  "length docs35 = 35 \<and>
   map_sum (\<lambda>e. e) snd (score_pages backend35 (PStr ''p1'') 0 [] []) = Inr [0, 10, 20, 30, 40] \<and>
   map_sum (\<lambda>e. e) (\<lambda>r. length (fst r)) (score_pages backend35 (PStr ''p1'') 0 [] []) = Inr 35"
  by code_simp

section \<open>Properties of the submitted payload\<close>

lemma update_entries:
  "(k, v) \<in> set (AList.update k' v' al) \<Longrightarrow> (k, v) = (k', v') \<or> (k, v) \<in> set al"
  by (induction al) (auto split: if_splits)

lemma dict_update_keys: "fst ` set (dict_update d e) = fst ` set d \<union> fst ` set e"
  unfolding dict_update_def
  by (induction e arbitrary: d) (auto simp: dom_update split: prod.splits)

lemma dict_update_entries:
  "(k, v) \<in> set (dict_update d e) \<Longrightarrow> (k, v) \<in> set d \<or> (k, v) \<in> set e"
  unfolding dict_update_def
proof (induction e arbitrary: d)
  case Nil
  then show ?case by simp
next
  case (Cons x e)
  obtain k' v' where x: "x = (k', v')" by (cases x)
  from Cons.prems x have "(k, v) \<in> set (fold (\<lambda>(k, v). AList.update k v) e (AList.update k' v' d))"
    by simp
  from Cons.IH[OF this] x show ?case by (auto dest: update_entries)
qed

lemma dict_update_distinct:
  "distinct (map fst d) \<Longrightarrow> distinct (map fst (dict_update d e))"
  unfolding dict_update_def
  by (induction e arbitrary: d) (auto simp: distinct_update split: prod.splits)

lemma dict_of_items_keys: "fst ` set (dict_of_items xs) = fst ` set xs"
  by (simp add: dict_of_items_def dict_update_keys)

lemma dict_of_items_entries: "(k, v) \<in> set (dict_of_items xs) \<Longrightarrow> (k, v) \<in> set xs"
  using dict_update_entries[of k v "[]" xs] by (simp add: dict_of_items_def)

lemma dumpable_not_None: "v \<noteq> PNone \<Longrightarrow> dumpable v \<noteq> PNone"
  by (cases v) simp_all

lemma score_json_entries:
  assumes "score_json ns self player upload = Inr payload"
  shows "\<exists>data. score_data ns self player upload = Inr data \<and>
           payload = dict_of_items (map (\<lambda>(k, v). (k, dumpable v))
                                      (filter (\<lambda>(k, v). v \<noteq> PNone) data))"
  using assms by (auto simp: score_json_def and_then_Inr_iff)

lemma score_head_keys:
  "score_head self player upload = Inr data0 \<Longrightarrow>
   map fst data0 =
     [''apiKey'', ''playerId'', ''scoreValue'', ''passed'', ''secondsSurvived'', ''group'']"
  by (auto simp: score_head_def and_then_Inr_iff split: option.splits)

lemma score_data_shape:
  assumes "score_data ns self player upload = Inr data"
  shows "\<exists>data0 score bv breakdown sv song own ev es inputEvents nv nes noteScores.
     score_head self player upload = Inr data0 \<and>
     getattr upload ''score'' = Inr score \<and> getattr score ''scoreBreakdown'' = Inr bv \<and>
     get_dict ns bv = Inr breakdown \<and>
     getattr upload ''song'' = Inr sv \<and> get_dict ns sv = Inr song \<and>
     get_dict ns upload = Inr own \<and>
     getattr upload ''inputEvents'' = Inr ev \<and> py_iter ev = Inr es \<and>
     dicts_of ns es = Inr inputEvents \<and>
     getattr upload ''noteScoresWithBeats'' = Inr nv \<and> py_iter nv = Inr nes \<and>
     dicts_of ns nes = Inr noteScores \<and>
     data = AList.update ''noteScoresWithBeats'' (PList noteScores)
             (AList.update ''inputEvents'' (PList inputEvents)
               (dict_update
                 (dict_update (dict_update data0 breakdown) song)
                 (dict_of_items (filter (\<lambda>(k, v). \<not> is_FlattenedBase v) own))))"
  using assms unfolding score_data_def and_then_Inr_iff by blast

lemma score_data_distinct:
  assumes "score_data ns self player upload = Inr data"
  shows "distinct (map fst data)"
proof -
  from score_data_shape[OF assms] obtain data0 a b c d e where
    h: "score_head self player upload = Inr data0" and
    data: "data = AList.update ''noteScoresWithBeats'' a
             (AList.update ''inputEvents'' b (dict_update (dict_update (dict_update data0 c) d) e))"
    by blast
  from score_head_keys[OF h] have "distinct (map fst data0)" by simp
  then show ?thesis unfolding data
    by (intro distinct_update dict_update_distinct)
qed

text \<open>
  Claim C3. Let \<^verbatim>\<open>post_score\<close> get as far as the request, and let \<open>payload\<close> be the
  dictionary it submits. No key of \<open>payload\<close> has the value \<^verbatim>\<open>None\<close>, and every key whose
  value in the flattened \<^verbatim>\<open>data\<close> is \<^verbatim>\<open>None\<close> is absent from \<open>payload\<close>.
\<close>

theorem score_json_no_null:
  assumes "score_json ns self player upload = Inr payload"
  shows "map_of payload k \<noteq> Some PNone \<and>
         (\<exists>data. score_data ns self player upload = Inr data \<and>
            (map_of data k = Some PNone \<longrightarrow> map_of payload k = None))"
proof -
  from score_json_entries[OF assms] obtain data
    where data: "score_data ns self player upload = Inr data"
      and payload: "payload = dict_of_items (map (\<lambda>(k, v). (k, dumpable v))
                                      (filter (\<lambda>(k, v). v \<noteq> PNone) data))"
    by blast
  have 1: "map_of payload k \<noteq> Some PNone"
  proof
    assume "map_of payload k = Some PNone"
    then have "(k, PNone) \<in> set payload" by (rule map_of_SomeD)
    with payload have "(k, PNone) \<in> set (map (\<lambda>(k, v). (k, dumpable v))
                                      (filter (\<lambda>(k, v). v \<noteq> PNone) data))"
      by (auto dest: dict_of_items_entries)
    then show False by (auto dest: dumpable_not_None)
  qed
  have 2: "map_of payload k = None" if "map_of data k = Some PNone"
  proof -
    have "k \<notin> fst ` set payload"
    proof
      assume "k \<in> fst ` set payload"
      with payload obtain v where "(k, v) \<in> set data" "v \<noteq> PNone"
        by (auto simp: dict_of_items_keys)
      with score_data_distinct[OF data] have "map_of data k = Some v" by simp
      with that \<open>v \<noteq> PNone\<close> show False by simp
    qed
    then show ?thesis by (simp add: map_of_eq_None_iff)
  qed
  from 1 2 data show ?thesis by blast
qed




text \<open>The sample uploads are what the constructor makes of their keyword arguments.\<close>

lemma sample_upload_constructed:
  "construct fields ChartUpload (upload_kwargs sample_breakdown) =
     Inr (sample_upload sample_breakdown)"
  by code_simp

lemma sample_upload_null_constructed:
  "construct fields ChartUpload (upload_kwargs null_misses) = Inr (sample_upload null_misses)"
  by code_simp

theorem score_json_no_null_witness:
  "\<exists>payload. score_json no_namespace sample_client sample_player (sample_upload null_misses) =
       Inr payload \<and>
     map_of payload ''misses'' = None \<and> map_of payload ''misses'' \<noteq> Some PNone"
proof -
  let ?u = "sample_upload null_misses"
  have "\<not> isl (score_json no_namespace sample_client sample_player ?u)" by code_simp
  then obtain payload
    where p: "score_json no_namespace sample_client sample_player ?u = Inr payload"
    by (cases "score_json no_namespace sample_client sample_player ?u") auto
  have m: "map_sum (\<lambda>e. e) (\<lambda>d. map_of d ''misses'')
             (score_data no_namespace sample_client sample_player ?u) = Inr (Some PNone)"
    by code_simp
  from score_json_no_null[OF p, of "''misses''"] obtain data
    where "score_data no_namespace sample_client sample_player ?u = Inr data"
      and "map_of data ''misses'' = Some PNone \<longrightarrow> map_of payload ''misses'' = None"
      and n: "map_of payload ''misses'' \<noteq> Some PNone"
    by blast
  with m have "map_of payload ''misses'' = None" by simp
  with p n show ?thesis by blast
qed



end
